theory Spec2Isabelle
  imports
    Main
    "HOL-Library.Char_ord"
    "HOL-Library.List_Lexorder"
    "HOL-Library.Product_Lexorder"
begin

section \<open>The rate limiter of scanner-app (src/app.js, lines 544--794)\<close>

text \<open>
  The limiter keeps, per client, two Redis sorted sets (one per window). This theory
  embeds the Redis commands the code issues, the node-redis client in front of them,
  the \<open>kv\<close> adapter, and the five functions of the limiter, and proves properties of
  them.

  Conventions of the embedding.
  \<^item> Times are integers: \<open>Date.now()\<close> is a number of milliseconds, scores are whole
    seconds (\<open>Math.floor(now / 1000)\<close>). On integers \<open>Math.ceil\<close> is the identity.
  \<^item> Every command takes the database and returns it, changed or not.
  \<^item> A rejected promise is \<open>Inl\<close> of an error; \<open>try/catch\<close> is a case on the sum.
  \<^item> All commands of one call of the limiter see one clock value, the one
    \<open>Date.now()\<close> returned, on the client and on the server.
\<close>

subsection \<open>Rendering numbers in template strings\<close>

definition digit_char :: "nat \<Rightarrow> char" where
  "digit_char d = ''0123456789'' ! (d mod 10)"

function digits :: "nat \<Rightarrow> string" where
  "digits n = (if n < 10 then [digit_char n] else digits (n div 10) @ [digit_char (n mod 10)])"
  by pat_completeness auto
termination
  by (relation "measure (\<lambda>n. n)") auto

declare digits.simps [simp del]

definition str_of_int :: "int \<Rightarrow> string" where
  "str_of_int i = (if i < 0 then CHR ''-'' # digits (nat (- i)) else digits (nat i))"

subsection \<open>The Redis server: sorted sets with a time to live\<close>

text \<open>
  A key holds a sorted set, a list of (member, score) pairs, and possibly the time in
  milliseconds at which it expires. A key whose expiry time has passed is not seen by
  any command. Members are ranked by score, then by member.

  The server and the client library are not code of the repository. Their commands
  are embedded as Redis documents them (ZADD, ZCOUNT, ZRANGEBYSCORE with LIMIT, ZRANGE
  by rank, EXPIRE) and as section 4.2 of the specification describes the store.
\<close>

record zkey =
  zmembers :: "(string \<times> int) list"
  expireAt :: "int option"

type_synonym redis_db = "string \<rightharpoonup> zkey"

datatype score_bound = Score int | PlusInf

definition live :: "int \<Rightarrow> redis_db \<Rightarrow> string \<Rightarrow> zkey option" where
  "live t db k =
     (case db k of
        None \<Rightarrow> None
      | Some e \<Rightarrow>
          (case expireAt e of
             None \<Rightarrow> Some e
           | Some x \<Rightarrow> if x \<le> t then None else Some e))"

definition live_members :: "int \<Rightarrow> redis_db \<Rightarrow> string \<Rightarrow> (string \<times> int) list" where
  "live_members t db k = (case live t db k of None \<Rightarrow> [] | Some e \<Rightarrow> zmembers e)"

definition ranked :: "(string \<times> int) list \<Rightarrow> (string \<times> int) list" where
  "ranked zs = sort_key (\<lambda>e. (snd e, fst e)) zs"

definition in_score_range :: "int \<Rightarrow> score_bound \<Rightarrow> string \<times> int \<Rightarrow> bool" where
  "in_score_range lo hi e =
     (lo \<le> snd e \<and> (case hi of PlusInf \<Rightarrow> True | Score h \<Rightarrow> snd e \<le> h))"

definition redis_zAdd ::
  "int \<Rightarrow> string \<Rightarrow> int \<Rightarrow> string \<Rightarrow> redis_db \<Rightarrow> int \<times> redis_db" where
  "redis_zAdd t k sc m db =
     (let old = live_members t db k;
          ttl = (case live t db k of None \<Rightarrow> None | Some e \<Rightarrow> expireAt e);
          added = (if m \<in> set (map fst old) then 0 else 1)
      in (added,
          db(k \<mapsto> \<lparr>zmembers = (m, sc) # filter (\<lambda>e. fst e \<noteq> m) old, expireAt = ttl\<rparr>)))"

definition redis_zCount :: "int \<Rightarrow> string \<Rightarrow> int \<Rightarrow> score_bound \<Rightarrow> redis_db \<Rightarrow> int" where
  "redis_zCount t k lo hi db =
     int (length (filter (in_score_range lo hi) (live_members t db k)))"

definition redis_zRangeByScore ::
  "int \<Rightarrow> string \<Rightarrow> int \<Rightarrow> score_bound \<Rightarrow> nat option \<Rightarrow> redis_db \<Rightarrow> (string \<times> int) list" where
  "redis_zRangeByScore t k lo hi limit db =
     (let hits = filter (in_score_range lo hi) (ranked (live_members t db k))
      in case limit of None \<Rightarrow> hits | Some n \<Rightarrow> take n hits)"

text \<open>Ranks: a negative index counts from the end of the ranking.\<close>

definition rank_slice :: "'a list \<Rightarrow> int \<Rightarrow> int \<Rightarrow> 'a list" where
  "rank_slice zs start stop =
     (let n = int (length zs);
          a = (if start < 0 then max 0 (n + start) else start);
          b = min (if stop < 0 then n + stop else stop) (n - 1)
      in if b < a then [] else take (nat (b - a + 1)) (drop (nat a) zs))"

definition redis_zRange :: "int \<Rightarrow> string \<Rightarrow> int \<Rightarrow> int \<Rightarrow> redis_db \<Rightarrow> (string \<times> int) list" where
  "redis_zRange t k start stop db = rank_slice (ranked (live_members t db k)) start stop"

definition redis_expire :: "int \<Rightarrow> string \<Rightarrow> int \<Rightarrow> redis_db \<Rightarrow> int \<times> redis_db" where
  "redis_expire t k secs db =
     (case live t db k of
        None \<Rightarrow> (0, db)
      | Some e \<Rightarrow>
          if secs \<le> 0 then (1, db(k := None))
          else (1, db(k \<mapsto> e\<lparr>expireAt := Some (t + secs * 1000)\<rparr>)))"

subsection \<open>The node-redis client\<close>

text \<open>
  What the outside world decides in one call of the limiter: the clock, whether the
  client is connected (\<open>redisClient.isOpen\<close>), and which commands the client rejects
  (a lost connection, a timeout). Within one call of the limiter every command is
  issued at most once, so a predicate on commands describes every pattern of
  failures. A rejected command leaves the database as it was.
\<close>

datatype redis_cmd =
    ZADD string int string
  | ZCOUNT string int score_bound
  | ZRANGEBYSCORE string int score_bound "nat option"
  | ZRANGEBYSCORE_WITHSCORES string int score_bound "nat option"
  | ZRANGE string int score_bound
  | ZRANGE_WITHSCORES string int score_bound
  | EXPIRE string int

datatype error = RedisError

record env =
  clock :: int
  isOpen :: bool
  rejects :: "redis_cmd \<Rightarrow> bool"

definition client_zAdd ::
  "env \<Rightarrow> string \<Rightarrow> int \<Rightarrow> string \<Rightarrow> redis_db \<Rightarrow> (error + int) \<times> redis_db" where
  "client_zAdd ev k sc m db =
     (if rejects ev (ZADD k sc m) then (Inl RedisError, db)
      else (case redis_zAdd (clock ev) k sc m db of (n, db') \<Rightarrow> (Inr n, db')))"

definition client_zCount ::
  "env \<Rightarrow> string \<Rightarrow> int \<Rightarrow> score_bound \<Rightarrow> redis_db \<Rightarrow> (error + int) \<times> redis_db" where
  "client_zCount ev k lo hi db =
     (if rejects ev (ZCOUNT k lo hi) then (Inl RedisError, db)
      else (Inr (redis_zCount (clock ev) k lo hi db), db))"

definition client_zRangeByScore ::
  "env \<Rightarrow> string \<Rightarrow> int \<Rightarrow> score_bound \<Rightarrow> nat option \<Rightarrow> redis_db
     \<Rightarrow> (error + string list) \<times> redis_db" where
  "client_zRangeByScore ev k lo hi limit db =
     (if rejects ev (ZRANGEBYSCORE k lo hi limit) then (Inl RedisError, db)
      else (Inr (map fst (redis_zRangeByScore (clock ev) k lo hi limit db)), db))"

definition client_zRangeByScoreWithScores ::
  "env \<Rightarrow> string \<Rightarrow> int \<Rightarrow> score_bound \<Rightarrow> nat option \<Rightarrow> redis_db
     \<Rightarrow> (error + (string \<times> int) list) \<times> redis_db" where
  "client_zRangeByScoreWithScores ev k lo hi limit db =
     (if rejects ev (ZRANGEBYSCORE_WITHSCORES k lo hi limit) then (Inl RedisError, db)
      else (Inr (redis_zRangeByScore (clock ev) k lo hi limit db), db))"

text \<open>A rank must be a number: the server refuses \<open>'+inf'\<close> as a rank.\<close>

definition client_zRangeWithScores ::
  "env \<Rightarrow> string \<Rightarrow> int \<Rightarrow> score_bound \<Rightarrow> redis_db
     \<Rightarrow> (error + (string \<times> int) list) \<times> redis_db" where
  "client_zRangeWithScores ev k start stop db =
     (if rejects ev (ZRANGE_WITHSCORES k start stop) then (Inl RedisError, db)
      else (case stop of
              PlusInf \<Rightarrow> (Inl RedisError, db)
            | Score b \<Rightarrow> (Inr (redis_zRange (clock ev) k start b db), db)))"

definition client_zRange ::
  "env \<Rightarrow> string \<Rightarrow> int \<Rightarrow> score_bound \<Rightarrow> redis_db \<Rightarrow> (error + string list) \<times> redis_db" where
  "client_zRange ev k start stop db =
     (if rejects ev (ZRANGE k start stop) then (Inl RedisError, db)
      else (case stop of
              PlusInf \<Rightarrow> (Inl RedisError, db)
            | Score b \<Rightarrow> (Inr (map fst (redis_zRange (clock ev) k start b db)), db)))"

definition client_expire ::
  "env \<Rightarrow> string \<Rightarrow> int \<Rightarrow> redis_db \<Rightarrow> (error + int) \<times> redis_db" where
  "client_expire ev k secs db =
     (if rejects ev (EXPIRE k secs) then (Inl RedisError, db)
      else (case redis_expire (clock ev) k secs db of (n, db') \<Rightarrow> (Inr n, db')))"

subsection \<open>The kv adapter (lines 544--575)\<close>

text \<open>
  \<open>zadd\<close> and \<open>expire\<close> return \<open>null\<close> (\<open>None\<close>) when the client is not open, \<open>zcount\<close>
  returns 0 and \<open>zrange\<close> the empty array. The options of \<open>zrange\<close> that are absent in
  the call are \<open>False\<close> and 0, which JavaScript reads as false as well.
\<close>

record zrange_options =
  byScore :: bool
  withScores :: bool
  count :: nat

datatype zrange_reply = Members "string list" | Scored "(string \<times> int) list"

definition limit_of :: "zrange_options \<Rightarrow> nat option" where
  "limit_of opts = (if count opts \<noteq> 0 then Some (count opts) else None)"

definition kv_zadd ::
  "env \<Rightarrow> string \<Rightarrow> int \<Rightarrow> string \<Rightarrow> redis_db \<Rightarrow> (error + int option) \<times> redis_db" where
  "kv_zadd ev key score member db =
     (if \<not> isOpen ev then (Inr None, db)
      else (case client_zAdd ev key score member db of
              (Inl e, db') \<Rightarrow> (Inl e, db')
            | (Inr n, db') \<Rightarrow> (Inr (Some n), db')))"

definition kv_zcount ::
  "env \<Rightarrow> string \<Rightarrow> int \<Rightarrow> score_bound \<Rightarrow> redis_db \<Rightarrow> (error + int) \<times> redis_db" where
  "kv_zcount ev key lo hi db =
     (if \<not> isOpen ev then (Inr 0, db) else client_zCount ev key lo hi db)"

definition kv_zrange ::
  "env \<Rightarrow> string \<Rightarrow> int \<Rightarrow> score_bound \<Rightarrow> zrange_options \<Rightarrow> redis_db
     \<Rightarrow> (error + zrange_reply) \<times> redis_db" where
  "kv_zrange ev key lo hi opts db =
     (if \<not> isOpen ev then (Inr (Members []), db)
      else if byScore opts then
        (case client_zRangeByScore ev key lo hi (limit_of opts) db of
           (Inl e, db1) \<Rightarrow> (Inl e, db1)
         | (Inr results, db1) \<Rightarrow>
             if withScores opts then
               (case client_zRangeByScoreWithScores ev key lo hi (limit_of opts) db1 of
                  (Inl e, db2) \<Rightarrow> (Inl e, db2)
                | (Inr scored, db2) \<Rightarrow> (Inr (Scored scored), db2))
             else (Inr (Members results), db1))
      else if withScores opts then
        (case client_zRangeWithScores ev key lo hi db of
           (Inl e, db1) \<Rightarrow> (Inl e, db1)
         | (Inr scored, db1) \<Rightarrow> (Inr (Scored scored), db1))
      else
        (case client_zRange ev key lo hi db of
           (Inl e, db1) \<Rightarrow> (Inl e, db1)
         | (Inr ms, db1) \<Rightarrow> (Inr (Members ms), db1)))"

definition kv_expire ::
  "env \<Rightarrow> string \<Rightarrow> int \<Rightarrow> redis_db \<Rightarrow> (error + int option) \<times> redis_db" where
  "kv_expire ev key seconds db =
     (if \<not> isOpen ev then (Inr None, db)
      else (case client_expire ev key seconds db of
              (Inl e, db') \<Rightarrow> (Inl e, db')
            | (Inr n, db') \<Rightarrow> (Inr (Some n), db')))"

subsection \<open>The limiter (lines 586--794)\<close>

definition LIMITS_PER_MINUTE :: int where "LIMITS_PER_MINUTE = 4"
definition LIMITS_PER_DAY :: int where "LIMITS_PER_DAY = 500"
definition WINDOWS_MINUTE :: int where "WINDOWS_MINUTE = 60"
definition WINDOWS_DAY :: int where "WINDOWS_DAY = 86400"

definition minuteKey :: "string \<Rightarrow> string" where
  "minuteKey identifier = ''ratelimit:minute:'' @ identifier"

definition dayKey :: "string \<Rightarrow> string" where
  "dayKey identifier = ''ratelimit:day:'' @ identifier"

text \<open>
  \<open>countRequestsInWindow\<close> (lines 734--747). Its \<open>catch\<close> returns 0, so it never
  rejects; \<open>count || 0\<close> replaces a falsy count by 0.
\<close>

definition countRequestsInWindow ::
  "env \<Rightarrow> string \<Rightarrow> int \<Rightarrow> int \<Rightarrow> redis_db \<Rightarrow> (error + int) \<times> redis_db" where
  "countRequestsInWindow ev key nowSeconds windowSeconds db =
     (let windowStart = nowSeconds - windowSeconds
      in case kv_zcount ev key windowStart PlusInf db of
           (Inl e, db') \<Rightarrow> (Inr 0, db')
         | (Inr c, db') \<Rightarrow> (Inr (if c = 0 then 0 else c), db'))"

text \<open>
  \<open>getOldestRequestTime\<close> (lines 756--777). \<open>members[0].score\<close> of a reply without
  scores is \<open>undefined\<close>, which the caller reads as no time.
\<close>

definition reply_length :: "zrange_reply \<Rightarrow> nat" where
  "reply_length r = (case r of Members ms \<Rightarrow> length ms | Scored ss \<Rightarrow> length ss)"

definition first_score :: "zrange_reply \<Rightarrow> int option" where
  "first_score r =
     (case r of
        Scored ((m, sc) # rest) \<Rightarrow> Some sc
      | Scored [] \<Rightarrow> None
      | Members ms \<Rightarrow> None)"

definition getOldestRequestTime ::
  "env \<Rightarrow> string \<Rightarrow> int \<Rightarrow> int \<Rightarrow> redis_db \<Rightarrow> (error + int option) \<times> redis_db" where
  "getOldestRequestTime ev key nowSeconds windowSeconds db =
     (let windowStart = nowSeconds - windowSeconds
      in case kv_zrange ev key windowStart PlusInf
                \<lparr>byScore = True, withScores = False, count = 1\<rparr> db of
           (Inl e, db1) \<Rightarrow> (Inr None, db1)
         | (Inr oldest, db1) \<Rightarrow>
             if 0 < reply_length oldest then
               (case kv_zrange ev key 0 (Score 0)
                       \<lparr>byScore = False, withScores = True, count = 0\<rparr> db1 of
                  (Inl e, db2) \<Rightarrow> (Inr None, db2)
                | (Inr members, db2) \<Rightarrow>
                    (Inr (if 0 < reply_length members then first_score members else None), db2))
             else (Inr None, db1))"

record decision =
  allowed :: bool
  reason :: "string option"
  message :: "string option"
  waitTime :: "int option"
  resetTime :: "string option"
  warning :: "string option"

definition allow :: decision where
  "allow = \<lparr>allowed = True, reason = None, message = None, waitTime = None,
            resetTime = None, warning = None\<rparr>"

definition deny_minute :: "int \<Rightarrow> decision" where
  "deny_minute w =
     \<lparr>allowed = False, reason = Some ''rate_limit'',
      message = Some (''Rate limit exceeded. Please wait '' @ str_of_int w
                      @ '' seconds before trying again.''),
      waitTime = Some w, resetTime = None, warning = None\<rparr>"

definition deny_day :: decision where
  "deny_day =
     \<lparr>allowed = False, reason = Some ''daily_limit'',
      message = Some ''Daily limit of 500 requests reached. Please try again tomorrow.'',
      waitTime = None, resetTime = Some ''tomorrow'', warning = None\<rparr>"

definition allow_unavailable :: decision where
  "allow_unavailable =
     \<lparr>allowed = True, reason = None, message = None, waitTime = None, resetTime = None,
      warning = Some ''Rate limiting temporarily unavailable''\<rparr>"

text \<open>
  The body of the \<open>try\<close> of \<open>checkRateLimit\<close> (lines 603--638).
  \<open>oldestRequestTime ? ... : WINDOWS.MINUTE\<close> takes the second branch for \<open>null\<close> and
  for the number 0.
\<close>

definition checkRateLimit_try ::
  "env \<Rightarrow> string \<Rightarrow> redis_db \<Rightarrow> (error + decision) \<times> redis_db" where
  "checkRateLimit_try ev identifier db =
     (let nowSeconds = clock ev div 1000
      in case countRequestsInWindow ev (minuteKey identifier) nowSeconds WINDOWS_MINUTE db of
           (Inl e, db1) \<Rightarrow> (Inl e, db1)
         | (Inr minuteCount, db1) \<Rightarrow>
             if LIMITS_PER_MINUTE \<le> minuteCount then
               (case getOldestRequestTime ev (minuteKey identifier) nowSeconds WINDOWS_MINUTE db1 of
                  (Inl e, db2) \<Rightarrow> (Inl e, db2)
                | (Inr oldestRequestTime, db2) \<Rightarrow>
                    (Inr (deny_minute
                       (case oldestRequestTime of
                          None \<Rightarrow> WINDOWS_MINUTE
                        | Some t \<Rightarrow>
                            if t = 0 then WINDOWS_MINUTE
                            else t + WINDOWS_MINUTE - nowSeconds)), db2))
             else
               (case countRequestsInWindow ev (dayKey identifier) nowSeconds WINDOWS_DAY db1 of
                  (Inl e, db2) \<Rightarrow> (Inl e, db2)
                | (Inr dayCount, db2) \<Rightarrow>
                    if LIMITS_PER_DAY \<le> dayCount then (Inr deny_day, db2)
                    else (Inr allow, db2)))"

text \<open>\<open>checkRateLimit\<close> (lines 601--649): the \<open>catch\<close> turns an error into the warning.\<close>

definition checkRateLimit :: "env \<Rightarrow> string \<Rightarrow> redis_db \<Rightarrow> decision \<times> redis_db" where
  "checkRateLimit ev identifier db =
     (case checkRateLimit_try ev identifier db of
        (Inl e, db') \<Rightarrow> (allow_unavailable, db')
      | (Inr d, db') \<Rightarrow> (d, db'))"

text \<open>
  \<open>recordRequest\<close> (lines 655--677). The four commands are issued in this order
  before any of them is awaited, so each runs whatever becomes of the others; the
  \<open>catch\<close> drops a rejection.
\<close>

definition recordRequest :: "env \<Rightarrow> string \<Rightarrow> redis_db \<Rightarrow> redis_db" where
  "recordRequest ev identifier db =
     (let now = clock ev;
          nowSeconds = now div 1000;
          db1 = snd (kv_zadd ev (minuteKey identifier) nowSeconds (str_of_int now) db);
          db2 = snd (kv_zadd ev (dayKey identifier) nowSeconds (str_of_int now) db1);
          db3 = snd (kv_expire ev (minuteKey identifier) (WINDOWS_MINUTE * 2) db2);
          db4 = snd (kv_expire ev (dayKey identifier) (WINDOWS_DAY * 2) db3)
      in db4)"

text \<open>\<open>getRateLimitStatus\<close> (lines 684--725).\<close>

record status =
  requestsLastMinute :: int
  requestsToday :: int
  limits_perMinute :: int
  limits_perDay :: int
  remaining_perMinute :: int
  remaining_perDay :: int
  status_error :: "string option"

definition getRateLimitStatus :: "env \<Rightarrow> string \<Rightarrow> redis_db \<Rightarrow> status \<times> redis_db" where
  "getRateLimitStatus ev identifier db =
     (let nowSeconds = clock ev div 1000
      in case countRequestsInWindow ev (minuteKey identifier) nowSeconds WINDOWS_MINUTE db of
           (Inl e, db1) \<Rightarrow>
             (\<lparr>requestsLastMinute = 0, requestsToday = 0,
               limits_perMinute = LIMITS_PER_MINUTE, limits_perDay = LIMITS_PER_DAY,
               remaining_perMinute = LIMITS_PER_MINUTE, remaining_perDay = LIMITS_PER_DAY,
               status_error = Some ''Unable to fetch rate limit status''\<rparr>,
              snd (countRequestsInWindow ev (dayKey identifier) nowSeconds WINDOWS_DAY db1))
         | (Inr minuteCount, db1) \<Rightarrow>
             (case countRequestsInWindow ev (dayKey identifier) nowSeconds WINDOWS_DAY db1 of
                (Inl e, db2) \<Rightarrow>
                  (\<lparr>requestsLastMinute = 0, requestsToday = 0,
                    limits_perMinute = LIMITS_PER_MINUTE, limits_perDay = LIMITS_PER_DAY,
                    remaining_perMinute = LIMITS_PER_MINUTE, remaining_perDay = LIMITS_PER_DAY,
                    status_error = Some ''Unable to fetch rate limit status''\<rparr>, db2)
              | (Inr dayCount, db2) \<Rightarrow>
                  (\<lparr>requestsLastMinute = minuteCount, requestsToday = dayCount,
                    limits_perMinute = LIMITS_PER_MINUTE, limits_perDay = LIMITS_PER_DAY,
                    remaining_perMinute = max 0 (LIMITS_PER_MINUTE - minuteCount),
                    remaining_perDay = max 0 (LIMITS_PER_DAY - dayCount),
                    status_error = None\<rparr>, db2)))"

subsection \<open>The client identifier (lines 785--794)\<close>

text \<open>
  Node decodes header values as Latin-1, one \<open>char\<close> per character. The white space
  \<open>trim\<close> removes is, in that range, the characters 9 to 13, 32 and 160. An Express
  request always has \<open>headers\<close> and \<open>connection\<close>; \<open>ip\<close> and \<open>remoteAddress\<close> may be
  undefined.
\<close>

record request =
  headers :: "string \<rightharpoonup> string"
  ip :: "string option"
  remoteAddress :: "string option"

fun split_sep :: "char \<Rightarrow> string \<Rightarrow> string list" where
  "split_sep sep [] = [[]]"
| "split_sep sep (c # cs) =
     (if c = sep then [] # split_sep sep cs
      else (case split_sep sep cs of [] \<Rightarrow> [[c]] | t # ts \<Rightarrow> (c # t) # ts))"

definition is_space :: "char \<Rightarrow> bool" where
  "is_space c = (c \<in> set [CHR 0x09, CHR 0x0A, CHR 0x0B, CHR 0x0C, CHR 0x0D, CHR 0x20, CHR 0xA0])"

definition trim :: "string \<Rightarrow> string" where
  "trim s = rev (dropWhile is_space (rev (dropWhile is_space s)))"

text \<open>
  \<open>a || b\<close> on a string that may be undefined: \<open>undefined\<close> and the empty string are
  falsy. The chain \<open>realIp || req.ip || req.connection.remoteAddress || 'unknown'\<close>
  yields its first truthy operand.
\<close>

definition truthy :: "string option \<Rightarrow> bool" where
  "truthy v = (case v of None \<Rightarrow> False | Some s \<Rightarrow> s \<noteq> [])"

definition or_else :: "string option \<Rightarrow> string \<Rightarrow> string" where
  "or_else v rest = (case v of None \<Rightarrow> rest | Some s \<Rightarrow> if s = [] then rest else s)"

definition getClientIdentifier :: "request \<Rightarrow> string" where
  "getClientIdentifier req =
     (let forwarded = headers req ''x-forwarded-for'';
          realIp = headers req ''x-real-ip''
      in case forwarded of
           Some f \<Rightarrow>
             if f \<noteq> [] then trim (split_sep CHR '','' f ! 0)
             else or_else realIp (or_else (ip req) (or_else (remoteAddress req) ''unknown''))
         | None \<Rightarrow>
             or_else realIp (or_else (ip req) (or_else (remoteAddress req) ''unknown'')))"

subsection \<open>Notions used in the statements\<close>

text \<open>The events stored under a key, whether the key has expired or not.\<close>

definition stored_events :: "redis_db \<Rightarrow> string \<Rightarrow> (string \<times> int) list" where
  "stored_events db k = (case db k of None \<Rightarrow> [] | Some e \<Rightarrow> zmembers e)"

text \<open>The events of a window: the live members whose score is at least the cutoff.\<close>

definition window_events :: "env \<Rightarrow> redis_db \<Rightarrow> string \<Rightarrow> int \<Rightarrow> (string \<times> int) list" where
  "window_events ev db k windowSeconds =
     filter (\<lambda>e. clock ev div 1000 - windowSeconds \<le> snd e) (live_members (clock ev) db k)"

definition window_count :: "env \<Rightarrow> redis_db \<Rightarrow> string \<Rightarrow> int \<Rightarrow> int" where
  "window_count ev db k windowSeconds = int (length (window_events ev db k windowSeconds))"

text \<open>The oldest event of a window, as section 4.2 of the specification describes it.\<close>

definition oldestSince_spec :: "env \<Rightarrow> redis_db \<Rightarrow> string \<Rightarrow> int \<Rightarrow> int option" where
  "oldestSince_spec ev db k windowSeconds =
     (case ranked (window_events ev db k windowSeconds) of
        [] \<Rightarrow> None
      | e # rest \<Rightarrow> Some (snd e))"

text \<open>A connected client all of whose commands succeed, and a disconnected one.\<close>

definition connected :: "int \<Rightarrow> env" where
  "connected t = \<lparr>clock = t, isOpen = True, rejects = (\<lambda>c. False)\<rparr>"

definition disconnected :: "int \<Rightarrow> env" where
  "disconnected t = \<lparr>clock = t, isOpen = False, rejects = (\<lambda>c. True)\<rparr>"

text \<open>A connected client that rejects the range queries by score and nothing else.\<close>

definition ranges_rejected :: "int \<Rightarrow> env" where
  "ranges_rejected t =
     \<lparr>clock = t, isOpen = True,
      rejects = (\<lambda>c. case c of ZRANGEBYSCORE k lo hi n \<Rightarrow> True | _ \<Rightarrow> False)\<rparr>"

text \<open>
  A database in which one client has 500 events in its day set, one per second from
  second 0 on, and whose minute set has expired.
\<close>

definition full_day :: redis_db where
  "full_day =
     [dayKey ''10.0.0.5'' \<mapsto>
        \<lparr>zmembers = map (\<lambda>n. (str_of_int (int n * 1000), int n)) [0..<500],
         expireAt = Some 172800000\<rparr>]"

text \<open>The database after requests of one client recorded at the given times.\<close>

definition recorded_at :: "int list \<Rightarrow> string \<Rightarrow> redis_db \<Rightarrow> redis_db" where
  "recorded_at ts identifier db = foldl (\<lambda>d t. recordRequest (connected t) identifier d) db ts"

text \<open>Calls of \<open>getRateLimitStatus\<close> in a row, and sequences of checks and records.\<close>

fun status_calls :: "env list \<Rightarrow> string \<Rightarrow> redis_db \<Rightarrow> redis_db" where
  "status_calls [] identifier db = db"
| "status_calls (ev # evs) identifier db =
     status_calls evs identifier (snd (getRateLimitStatus ev identifier db))"

datatype call = Check env string | Record env string

datatype outcome = Decided decision | Recorded

fun run :: "call list \<Rightarrow> redis_db \<Rightarrow> outcome list \<times> redis_db" where
  "run [] db = ([], db)"
| "run (Check ev identifier # cs) db =
     (case checkRateLimit ev identifier db of
        (d, db') \<Rightarrow> (case run cs db' of (os, db'') \<Rightarrow> (Decided d # os, db'')))"
| "run (Record ev identifier # cs) db =
     (case run cs (recordRequest ev identifier db) of (os, db'') \<Rightarrow> (Recorded # os, db''))"

text \<open>The resolution order of section 4.1 of the specification.\<close>

definition first_token :: "string \<Rightarrow> string" where
  "first_token s = takeWhile (\<lambda>c. c \<noteq> CHR '','') s"

definition present :: "string option \<Rightarrow> string option" where
  "present v = (case v of None \<Rightarrow> None | Some s \<Rightarrow> if s = [] then None else Some s)"

definition identify_spec :: "request \<Rightarrow> string" where
  "identify_spec req =
     (case present (headers req ''x-forwarded-for'') of
        Some f \<Rightarrow> trim (first_token f)
      | None \<Rightarrow>
          (case present (headers req ''x-real-ip'') of
             Some r \<Rightarrow> r
           | None \<Rightarrow>
               (case present (ip req) of
                  Some a \<Rightarrow> a
                | None \<Rightarrow>
                    (case present (remoteAddress req) of
                       Some a \<Rightarrow> a
                     | None \<Rightarrow> ''unknown''))))"

text \<open>Reading a rendered number back, to tell the members of different requests apart.\<close>

definition digit_val :: "char \<Rightarrow> nat" where
  "digit_val c = of_char c - 48"

definition decimal_value :: "string \<Rightarrow> nat" where
  "decimal_value s = foldl (\<lambda>a c. 10 * a + digit_val c) 0 s"

text \<open>A connected client that rejects the counts and nothing else.\<close>

definition counts_rejected :: "int \<Rightarrow> env" where
  "counts_rejected t =
     \<lparr>clock = t, isOpen = True,
      rejects = (\<lambda>c. case c of ZCOUNT k lo hi \<Rightarrow> True | _ \<Rightarrow> False)\<rparr>"

section \<open>Properties\<close>

subsection \<open>Reading leaves the database as it is\<close>

lemma keys_differ: "minuteKey i \<noteq> dayKey j"
  by (simp add: minuteKey_def dayKey_def)

lemma in_score_range_PlusInf: "in_score_range lo PlusInf = (\<lambda>e. lo \<le> snd e)"
  by (rule ext) (simp add: in_score_range_def)

lemma set_ranked: "set (ranked zs) = set zs"
  by (simp add: ranked_def)

lemma length_ranked: "length (ranked zs) = length zs"
  by (simp add: ranked_def)

lemma ranked_Nil_iff: "ranked zs = [] \<longleftrightarrow> zs = []"
  using length_ranked [of zs] by (metis length_0_conv)

lemma rank_slice_first: "rank_slice zs 0 0 = take 1 zs"
  by (cases zs) (simp_all add: rank_slice_def Let_def)

lemma countRequestsInWindow_db: "snd (countRequestsInWindow ev k ns w db) = db"
  by (simp add: countRequestsInWindow_def kv_zcount_def client_zCount_def Let_def)

lemma countRequestsInWindow_Inr: "\<exists>c. fst (countRequestsInWindow ev k ns w db) = Inr c"
  by (simp add: countRequestsInWindow_def kv_zcount_def client_zCount_def Let_def)

lemma kv_zrange_db: "snd (kv_zrange ev k lo hi opts db) = db"
  by (simp add: kv_zrange_def client_zRangeByScore_def client_zRangeByScoreWithScores_def
      client_zRangeWithScores_def client_zRange_def split: score_bound.splits)

lemma getOldestRequestTime_db: "snd (getOldestRequestTime ev k ns w db) = db"
proof -
  obtain r1 d1 where a: "kv_zrange ev k (ns - w) PlusInf \<lparr>byScore = True, withScores = False, count = 1\<rparr> db = (r1, d1)"
    by (cases "kv_zrange ev k (ns - w) PlusInf \<lparr>byScore = True, withScores = False, count = 1\<rparr> db")
  have d1: "d1 = db" using kv_zrange_db [of ev k "ns - w" PlusInf "\<lparr>byScore = True, withScores = False, count = 1\<rparr>" db] a by simp
  obtain r2 d2 where b: "kv_zrange ev k 0 (Score 0) \<lparr>byScore = False, withScores = True, count = 0\<rparr> db = (r2, d2)"
    by (cases "kv_zrange ev k 0 (Score 0) \<lparr>byScore = False, withScores = True, count = 0\<rparr> db")
  have d2: "d2 = db" using kv_zrange_db [of ev k 0 "Score 0" "\<lparr>byScore = False, withScores = True, count = 0\<rparr>" db] b by simp
  show ?thesis
    using a b d1 d2 by (simp add: getOldestRequestTime_def Let_def split: sum.splits)
qed

lemma count_healthy:
  assumes "isOpen ev" "\<not> rejects ev (ZCOUNT k (ns - w) PlusInf)"
  shows "countRequestsInWindow ev k ns w db =
    (Inr (int (length (filter (\<lambda>e. ns - w \<le> snd e) (live_members (clock ev) db k)))), db)"
  using assms
  by (simp add: countRequestsInWindow_def kv_zcount_def client_zCount_def Let_def redis_zCount_def in_score_range_PlusInf)

lemma oldest_healthy:
  assumes "isOpen ev" "\<not> rejects ev (ZRANGEBYSCORE k (ns - w) PlusInf (Some 1))"
     "\<not> rejects ev (ZRANGE_WITHSCORES k 0 (Score 0))"
  shows "getOldestRequestTime ev k ns w db =
    (Inr (if filter (\<lambda>e. ns - w \<le> snd e) (live_members (clock ev) db k) = [] then None
          else Some (snd (hd (ranked (live_members (clock ev) db k))))), db)"
proof -
  let ?ms = "live_members (clock ev) db k"
  let ?P = "\<lambda>e::string \<times> int. ns - w \<le> snd e"
  have e: "(filter ?P (ranked ?ms) = []) = (filter ?P ?ms = [])"
    by (simp add: filter_empty_conv set_ranked)
  have first: "kv_zrange ev k (ns - w) PlusInf \<lparr>byScore = True, withScores = False, count = 1\<rparr> db
     = (Inr (Members (map fst (take 1 (filter ?P (ranked ?ms))))), db)"
    using assms by (simp add: kv_zrange_def client_zRangeByScore_def limit_of_def redis_zRangeByScore_def in_score_range_PlusInf Let_def)
  have second: "kv_zrange ev k 0 (Score 0) \<lparr>byScore = False, withScores = True, count = 0\<rparr> db
     = (Inr (Scored (take 1 (ranked ?ms))), db)"
    using assms by (simp add: kv_zrange_def client_zRangeWithScores_def redis_zRange_def rank_slice_first)
  show ?thesis
  proof (cases "filter ?P ?ms = []")
    case True
    then show ?thesis using first e
      by (simp add: getOldestRequestTime_def Let_def reply_length_def)
  next
    case False
    then have ne: "ranked ?ms \<noteq> []" by (auto simp: ranked_Nil_iff)
    then obtain m sc rest where r: "ranked ?ms = (m, sc) # rest" by (cases "ranked ?ms") auto
    have f: "filter ?P (ranked ?ms) \<noteq> []" using False e by simp
    show ?thesis using first second False f r
      by (simp add: getOldestRequestTime_def Let_def reply_length_def first_score_def)
  qed
qed


lemma check_db: "snd (checkRateLimit ev i db) = db"
proof -
  obtain r1 d1 where a: "countRequestsInWindow ev (minuteKey i) (clock ev div 1000) WINDOWS_MINUTE db = (r1, d1)"
    by (cases "countRequestsInWindow ev (minuteKey i) (clock ev div 1000) WINDOWS_MINUTE db")
  have d1: "d1 = db" using countRequestsInWindow_db [of ev "minuteKey i" "clock ev div 1000" WINDOWS_MINUTE db] a by simp
  obtain r2 d2 where b: "getOldestRequestTime ev (minuteKey i) (clock ev div 1000) WINDOWS_MINUTE db = (r2, d2)"
    by (cases "getOldestRequestTime ev (minuteKey i) (clock ev div 1000) WINDOWS_MINUTE db")
  have d2: "d2 = db" using getOldestRequestTime_db [of ev "minuteKey i" "clock ev div 1000" WINDOWS_MINUTE db] b by simp
  obtain r3 d3 where c: "countRequestsInWindow ev (dayKey i) (clock ev div 1000) WINDOWS_DAY db = (r3, d3)"
    by (cases "countRequestsInWindow ev (dayKey i) (clock ev div 1000) WINDOWS_DAY db")
  have d3: "d3 = db" using countRequestsInWindow_db [of ev "dayKey i" "clock ev div 1000" WINDOWS_DAY db] c by simp
  show ?thesis
    using a b c d1 d2 d3
    by (simp add: checkRateLimit_def checkRateLimit_try_def Let_def split: sum.splits)
qed

lemma status_db: "snd (getRateLimitStatus ev i db) = db"
proof -
  obtain r1 d1 where a: "countRequestsInWindow ev (minuteKey i) (clock ev div 1000) WINDOWS_MINUTE db = (r1, d1)"
    by (cases "countRequestsInWindow ev (minuteKey i) (clock ev div 1000) WINDOWS_MINUTE db")
  have d1: "d1 = db" using countRequestsInWindow_db [of ev "minuteKey i" "clock ev div 1000" WINDOWS_MINUTE db] a by simp
  obtain r3 d3 where c: "countRequestsInWindow ev (dayKey i) (clock ev div 1000) WINDOWS_DAY db = (r3, d3)"
    by (cases "countRequestsInWindow ev (dayKey i) (clock ev div 1000) WINDOWS_DAY db")
  have d3: "d3 = db" using countRequestsInWindow_db [of ev "dayKey i" "clock ev div 1000" WINDOWS_DAY db] c by simp
  show ?thesis
    using a c d1 d3
    by (simp add: getRateLimitStatus_def Let_def split: sum.splits)
qed

lemma status_calls_db: "status_calls evs i db = db"
  by (induction evs) (simp_all add: status_db)

lemma check_healthy:
  assumes "isOpen ev" "rejects ev = (\<lambda>c. False)"
  shows "fst (checkRateLimit ev i db) =
    (if 4 \<le> window_count ev db (minuteKey i) 60 then
       deny_minute (let t = snd (hd (ranked (live_members (clock ev) db (minuteKey i))))
                    in if t = 0 then 60 else t + 60 - clock ev div 1000)
     else if 500 \<le> window_count ev db (dayKey i) 86400 then deny_day
     else allow)"
proof -
  have r: "\<And>c. \<not> rejects ev c" using assms(2) by simp
  have ne: "4 \<le> window_count ev db (minuteKey i) 60 \<Longrightarrow>
     filter (\<lambda>e. clock ev div 1000 - 60 \<le> snd e) (live_members (clock ev) db (minuteKey i)) \<noteq> []"
    by (auto simp: window_count_def window_events_def)
  show ?thesis
    using ne
    by (simp add: checkRateLimit_def checkRateLimit_try_def Let_def
        count_healthy [OF assms(1) r] oldest_healthy [OF assms(1) r r]
        window_count_def window_events_def
        WINDOWS_MINUTE_def WINDOWS_DAY_def LIMITS_PER_MINUTE_def LIMITS_PER_DAY_def)
qed

text \<open>
  Claim C8. \<open>getRateLimitStatus\<close> returns the database it was given: one call, any
  number of calls in a row (100 of them, say, each with its own clock and its own
  connection state), and any sequence of \<open>checkRateLimit\<close> and \<open>recordRequest\<close> after
  them has the outcome it has without them.
\<close>

theorem getRateLimitStatus_no_mutation:
  "snd (getRateLimitStatus ev identifier db) = db
   \<and> status_calls evs identifier db = db
   \<and> run cs (status_calls evs identifier db) = run cs db"
  by (simp add: status_db status_calls_db)

subsection \<open>What recording stores\<close>

lemma live_members_upd_other: "k' \<noteq> k \<Longrightarrow> live_members t (db(k' := v)) k = live_members t db k"
  by (simp add: live_members_def live_def)

lemma kv_zadd_other: "k' \<noteq> k \<Longrightarrow> snd (kv_zadd ev k' sc m db) k = db k"
  by (simp add: kv_zadd_def client_zAdd_def redis_zAdd_def Let_def)

lemma kv_expire_other: "k' \<noteq> k \<Longrightarrow> snd (kv_expire ev k' secs db) k = db k"
  by (simp add: kv_expire_def client_expire_def redis_expire_def split: option.splits)

lemma kv_zadd_connected:
  "snd (kv_zadd (connected t) k sc m db) k =
     Some \<lparr>zmembers = (m, sc) # filter (\<lambda>e. fst e \<noteq> m) (live_members t db k),
           expireAt = (case live t db k of None \<Rightarrow> None | Some e \<Rightarrow> expireAt e)\<rparr>"
  by (simp add: kv_zadd_def client_zAdd_def redis_zAdd_def Let_def connected_def)

lemma kv_expire_connected:
  assumes "db k = Some \<lparr>zmembers = zs, expireAt = None\<rparr> \<or> (\<exists>x. db k = Some \<lparr>zmembers = zs, expireAt = Some x\<rparr> \<and> t < x)" "0 < secs"
  shows "snd (kv_expire (connected t) k secs db) k = Some \<lparr>zmembers = zs, expireAt = Some (t + secs * 1000)\<rparr>"
  using assms
  by (auto simp add: kv_expire_def client_expire_def redis_expire_def connected_def live_def)

lemma live_eq: "db k = db' k \<Longrightarrow> live t db k = live t db' k"
  by (simp add: live_def)

lemma live_members_eq: "db k = db' k \<Longrightarrow> live_members t db k = live_members t db' k"
  by (simp add: live_members_def live_def)

lemma live_expiry_gt: "live t db k = Some e \<Longrightarrow> expireAt e = Some x \<Longrightarrow> t < x"
  by (auto simp: live_def split: option.splits if_splits)

lemma recordRequest_minute:
  "recordRequest (connected t) i db (minuteKey i) =
     Some \<lparr>zmembers = (str_of_int t, t div 1000)
              # filter (\<lambda>e. fst e \<noteq> str_of_int t) (live_members t db (minuteKey i)),
           expireAt = Some (t + 120000)\<rparr>"
proof -
  let ?zs = "(str_of_int t, t div 1000) # filter (\<lambda>e. fst e \<noteq> str_of_int t) (live_members t db (minuteKey i))"
  define db1 where "db1 = snd (kv_zadd (connected t) (minuteKey i) (t div 1000) (str_of_int t) db)"
  define db2 where "db2 = snd (kv_zadd (connected t) (dayKey i) (t div 1000) (str_of_int t) db1)"
  define db3 where "db3 = snd (kv_expire (connected t) (minuteKey i) (WINDOWS_MINUTE * 2) db2)"
  define db4 where "db4 = snd (kv_expire (connected t) (dayKey i) (WINDOWS_DAY * 2) db3)"
  have r: "recordRequest (connected t) i db = db4"
    by (simp add: recordRequest_def Let_def db1_def db2_def db3_def db4_def connected_def)
  have k: "dayKey i \<noteq> minuteKey i" using keys_differ [of i i] by simp
  have 1: "db1 (minuteKey i) = Some \<lparr>zmembers = ?zs, expireAt = (case live t db (minuteKey i) of None \<Rightarrow> None | Some e \<Rightarrow> expireAt e)\<rparr>"
    unfolding db1_def by (rule kv_zadd_connected)
  have 2: "db2 (minuteKey i) = db1 (minuteKey i)"
    unfolding db2_def by (rule kv_zadd_other [OF k])
  have pre: "db2 (minuteKey i) = Some \<lparr>zmembers = ?zs, expireAt = None\<rparr> \<or> (\<exists>x. db2 (minuteKey i) = Some \<lparr>zmembers = ?zs, expireAt = Some x\<rparr> \<and> t < x)"
  proof (cases "live t db (minuteKey i)")
    case None
    then show ?thesis using 1 2 by simp
  next
    case (Some e)
    show ?thesis
    proof (cases "expireAt e")
      case None
      then show ?thesis using 1 2 Some by simp
    next
      case (Some x)
      with \<open>live t db (minuteKey i) = Some e\<close> have "t < x" by (rule live_expiry_gt)
      then show ?thesis using 1 2 Some \<open>live t db (minuteKey i) = Some e\<close> by simp
    qed
  qed
  have 3: "db3 (minuteKey i) = Some \<lparr>zmembers = ?zs, expireAt = Some (t + 120000)\<rparr>"
    unfolding db3_def
    using pre kv_expire_connected [where db = db2 and k = "minuteKey i" and t = t and zs = ?zs and secs = "WINDOWS_MINUTE * 2"]
    by (simp add: WINDOWS_MINUTE_def)
  have 4: "db4 (minuteKey i) = db3 (minuteKey i)"
    unfolding db4_def by (rule kv_expire_other [OF k])
  show ?thesis using r 3 4 by simp
qed

lemma live_members_recordRequest_minute:
  "live_members t' (recordRequest (connected t) i db) (minuteKey i) =
     (if t + 120000 \<le> t' then []
      else (str_of_int t, t div 1000)
             # filter (\<lambda>e. fst e \<noteq> str_of_int t) (live_members t db (minuteKey i)))"
  by (simp add: live_members_def live_def recordRequest_minute)

subsection \<open>The decisions of checkRateLimit\<close>

lemma live_members_stored: "set (live_members t db k) \<subseteq> set (stored_events db k)"
  by (auto simp: live_members_def live_def stored_events_def split: option.splits if_splits)

lemma kv_zrange_rank0:
  "kv_zrange ev k 0 (Score 0) \<lparr>byScore = False, withScores = True, count = 0\<rparr> db =
     (if \<not> isOpen ev then (Inr (Members []), db)
      else if rejects ev (ZRANGE_WITHSCORES k 0 (Score 0)) then (Inl RedisError, db)
      else (Inr (Scored (take 1 (ranked (live_members (clock ev) db k)))), db))"
  by (simp add: kv_zrange_def client_zRangeWithScores_def redis_zRange_def rank_slice_first)

lemma first_score_take: "first_score (Scored (take 1 zs)) = Some t \<Longrightarrow> \<exists>m. (m, t) \<in> set zs"
  by (cases zs) (auto simp: first_score_def)

lemma oldest_Inr: "\<exists>r. getOldestRequestTime ev k ns w db = (Inr r, db)"
proof -
  obtain r1 d1 where a: "kv_zrange ev k (ns - w) PlusInf \<lparr>byScore = True, withScores = False, count = 1\<rparr> db = (r1, d1)"
    by (cases "kv_zrange ev k (ns - w) PlusInf \<lparr>byScore = True, withScores = False, count = 1\<rparr> db")
  have d1: "d1 = db" using kv_zrange_db [of ev k "ns - w" PlusInf "\<lparr>byScore = True, withScores = False, count = 1\<rparr>" db] a by simp
  show ?thesis
    using a d1 by (simp add: getOldestRequestTime_def Let_def kv_zrange_rank0 split: sum.splits)
qed

lemma oldest_in_store:
  assumes "getOldestRequestTime ev k ns w db = (Inr (Some t), db')"
  shows "\<exists>m. (m, t) \<in> set (live_members (clock ev) db k)"
proof -
  obtain r1 d1 where a: "kv_zrange ev k (ns - w) PlusInf \<lparr>byScore = True, withScores = False, count = 1\<rparr> db = (r1, d1)"
    by (cases "kv_zrange ev k (ns - w) PlusInf \<lparr>byScore = True, withScores = False, count = 1\<rparr> db")
  have d1: "d1 = db" using kv_zrange_db [of ev k "ns - w" PlusInf "\<lparr>byScore = True, withScores = False, count = 1\<rparr>" db] a by simp
  have "first_score (Scored (take 1 (ranked (live_members (clock ev) db k)))) = Some t"
    using assms a d1
    by (auto simp add: getOldestRequestTime_def Let_def kv_zrange_rank0 reply_length_def first_score_def
        split: sum.splits if_splits)
  then have "\<exists>m. (m, t) \<in> set (ranked (live_members (clock ev) db k))"
    by (rule first_score_take)
  then show ?thesis by (simp add: set_ranked)
qed

lemma count_Inr: "\<exists>c. countRequestsInWindow ev k ns w db = (Inr c, db)"
  by (simp add: countRequestsInWindow_def kv_zcount_def client_zCount_def Let_def)

lemma check_shape:
  "fst (checkRateLimit ev i db) = allow
   \<or> fst (checkRateLimit ev i db) = deny_day
   \<or> fst (checkRateLimit ev i db) = deny_minute 60
   \<or> (\<exists>m t. (m, t) \<in> set (live_members (clock ev) db (minuteKey i))
          \<and> fst (checkRateLimit ev i db) = deny_minute (t + 60 - clock ev div 1000))"
proof -
  let ?ns = "clock ev div 1000"
  obtain c1 where a: "countRequestsInWindow ev (minuteKey i) ?ns WINDOWS_MINUTE db = (Inr c1, db)"
    using count_Inr by blast
  obtain c2 where b: "countRequestsInWindow ev (dayKey i) ?ns WINDOWS_DAY db = (Inr c2, db)"
    using count_Inr by blast
  obtain r where c: "getOldestRequestTime ev (minuteKey i) ?ns WINDOWS_MINUTE db = (Inr r, db)"
    using oldest_Inr by blast
  show ?thesis
  proof (cases "LIMITS_PER_MINUTE \<le> c1")
    case False
    then show ?thesis using a b
      by (simp add: checkRateLimit_def checkRateLimit_try_def Let_def)
  next
    case True
    show ?thesis
    proof (cases r)
      case None
      then show ?thesis using True a c
        by (simp add: checkRateLimit_def checkRateLimit_try_def Let_def WINDOWS_MINUTE_def)
    next
      case (Some t)
      then have "\<exists>m. (m, t) \<in> set (live_members (clock ev) db (minuteKey i))"
        using c oldest_in_store by blast
      then show ?thesis using True a c Some
        by (auto simp add: checkRateLimit_def checkRateLimit_try_def Let_def WINDOWS_MINUTE_def)
    qed
  qed
qed

lemma check_never_warns: "warning (fst (checkRateLimit ev i db)) = None"
  using check_shape [of ev i db]
  by (auto simp: allow_def deny_day_def deny_minute_def)

lemma check_closed: "\<not> isOpen ev \<Longrightarrow> fst (checkRateLimit ev i db) = allow"
  by (simp add: checkRateLimit_def checkRateLimit_try_def Let_def countRequestsInWindow_def kv_zcount_def
      LIMITS_PER_MINUTE_def LIMITS_PER_DAY_def)

subsection \<open>Concrete stores\<close>

lemma live_members_empty: "live_members t Map.empty k = []"
  by (simp add: live_members_def live_def)

lemma connected_sel:
  "clock (connected t) = t" "isOpen (connected t)" "rejects (connected t) = (\<lambda>c. False)"
  by (simp_all add: connected_def)

lemmas str_eval = str_of_int_def digits.simps digit_char_def

lemma scenario_members:
  "live_members 35000 (recorded_at [0, 10000, 20000, 30000] ''10.0.0.5'' Map.empty)
     (minuteKey ''10.0.0.5'')
   = [(''30000'', 30), (''20000'', 20), (''10000'', 10), (''0'', 0)]"
  by (simp add: recorded_at_def live_members_recordRequest_minute live_members_empty str_eval)

lemma scenario_ranked:
  "ranked [(''30000'', 30), (''20000'', 20), (''10000'', 10), (''0'', 0)]
   = [(''0'', 0), (''10000'', 10), (''20000'', 20), (''30000'', 30)]"
  by (simp add: ranked_def)

lemma burst_members:
  "live_members 110000 (recorded_at [5000, 100000, 101000, 102000, 103000] ''10.0.0.5'' Map.empty)
     (minuteKey ''10.0.0.5'')
   = [(''103000'', 103), (''102000'', 102), (''101000'', 101), (''100000'', 100), (''5000'', 5)]"
  by (simp add: recorded_at_def live_members_recordRequest_minute live_members_empty str_eval)

lemma burst_ranked:
  "ranked [(''103000'', 103), (''102000'', 102), (''101000'', 101), (''100000'', 100), (''5000'', 5)]
   = [(''5000'', 5), (''100000'', 100), (''101000'', 101), (''102000'', 102), (''103000'', 103)]"
  by (simp add: ranked_def)

lemma edge_members:
  "live_members 110000 (recorded_at [50000, 100000, 101000, 102000] ''10.0.0.5'' Map.empty)
     (minuteKey ''10.0.0.5'')
   = [(''102000'', 102), (''101000'', 101), (''100000'', 100), (''50000'', 50)]"
  by (simp add: recorded_at_def live_members_recordRequest_minute live_members_empty str_eval)

lemma edge_ranked:
  "ranked [(''102000'', 102), (''101000'', 101), (''100000'', 100), (''50000'', 50)]
   = [(''50000'', 50), (''100000'', 100), (''101000'', 101), (''102000'', 102)]"
  by (simp add: ranked_def)

lemma pair_members:
  "live_members 120000 (recorded_at [5000, 100000] ''10.0.0.5'' Map.empty) (minuteKey ''10.0.0.5'')
   = [(''100000'', 100), (''5000'', 5)]"
  by (simp add: recorded_at_def live_members_recordRequest_minute live_members_empty str_eval)

lemma pair_ranked: "ranked [(''100000'', 100), (''5000'', 5)] = [(''5000'', 5), (''100000'', 100)]"
  by (simp add: ranked_def)

lemma burst_check:
  "fst (checkRateLimit (connected 110000) ''10.0.0.5''
         (recorded_at [5000, 100000, 101000, 102000, 103000] ''10.0.0.5'' Map.empty))
   = deny_minute (- 45)"
  by (simp add: check_healthy [OF connected_sel(2,3)] connected_sel(1) window_count_def
      window_events_def burst_members burst_ranked)

lemma edge_check:
  "fst (checkRateLimit (connected 110000) ''10.0.0.5''
         (recorded_at [50000, 100000, 101000, 102000] ''10.0.0.5'' Map.empty))
   = deny_minute 0"
  by (simp add: check_healthy [OF connected_sel(2,3)] connected_sel(1) window_count_def
      window_events_def edge_members edge_ranked)

subsection \<open>Refusals and waiting times\<close>

lemma stored_recordRequest_minute:
  "stored_events (recordRequest (connected t) i db) (minuteKey i) =
     (str_of_int t, t div 1000)
       # filter (\<lambda>e. fst e \<noteq> str_of_int t) (live_members t db (minuteKey i))"
  by (simp add: stored_events_def recordRequest_minute)

lemma burst_stored:
  "stored_events (recorded_at [5000, 100000, 101000, 102000, 103000] ''10.0.0.5'' Map.empty)
     (minuteKey ''10.0.0.5'')
   = [(''103000'', 103), (''102000'', 102), (''101000'', 101), (''100000'', 100), (''5000'', 5)]"
  by (simp add: recorded_at_def stored_recordRequest_minute live_members_recordRequest_minute
      live_members_empty str_eval)

lemma edge_stored:
  "stored_events (recorded_at [50000, 100000, 101000, 102000] ''10.0.0.5'' Map.empty)
     (minuteKey ''10.0.0.5'')
   = [(''102000'', 102), (''101000'', 101), (''100000'', 100), (''50000'', 50)]"
  by (simp add: recorded_at_def stored_recordRequest_minute live_members_recordRequest_minute
      live_members_empty str_eval)

lemma quad_members:
  "live_members 110000 (recorded_at [100000, 101000, 102000, 103000] ''10.0.0.5'' Map.empty)
     (minuteKey ''10.0.0.5'')
   = [(''103000'', 103), (''102000'', 102), (''101000'', 101), (''100000'', 100)]"
  by (simp add: recorded_at_def live_members_recordRequest_minute live_members_empty str_eval)

lemma digit_val_char: "d < 10 \<Longrightarrow> digit_val (digit_char d) = d"
proof -
  assume "d < 10"
  then have "d = 0 \<or> d = 1 \<or> d = 2 \<or> d = 3 \<or> d = 4 \<or> d = 5 \<or> d = 6 \<or> d = 7 \<or> d = 8 \<or> d = 9"
    by arith
  then show ?thesis
    by (elim disjE) (simp_all add: digit_val_def digit_char_def)
qed

lemma decimal_value_digits: "decimal_value (digits n) = n"
proof (induction n rule: digits.induct)
  case (1 n)
  show ?case
  proof (cases "n < 10")
    case True
    then show ?thesis
      by (subst digits.simps) (simp add: decimal_value_def digit_val_char)
  next
    case False
    have "decimal_value (digits (n div 10)) = n div 10" using 1 False by simp
    then show ?thesis using False
      by (subst digits.simps) (simp add: decimal_value_def digit_val_char)
  qed
qed

lemma str_of_int_differ:
  assumes "0 \<le> a" "0 \<le> b" "a \<noteq> b"
  shows "str_of_int a \<noteq> str_of_int b"
proof
  assume "str_of_int a = str_of_int b"
  then have "digits (nat a) = digits (nat b)" using assms by (simp add: str_of_int_def)
  then have "decimal_value (digits (nat a)) = decimal_value (digits (nat b))" by simp
  then have "nat a = nat b" by (simp add: decimal_value_digits)
  then show False using assms by simp
qed

lemma offset_members:
  assumes "1000 \<le> origin"
  shows "live_members (origin + 35000)
     (recorded_at [origin, origin + 10000, origin + 20000, origin + 30000] ''10.0.0.5'' Map.empty)
     (minuteKey ''10.0.0.5'')
   = [(str_of_int (origin + 30000), origin div 1000 + 30),
      (str_of_int (origin + 20000), origin div 1000 + 20),
      (str_of_int (origin + 10000), origin div 1000 + 10),
      (str_of_int origin, origin div 1000)]"
proof -
  have d: "(origin + 10000) div 1000 = origin div 1000 + 10"
    "(origin + 20000) div 1000 = origin div 1000 + 20"
    "(origin + 30000) div 1000 = origin div 1000 + 30"
    by simp_all
  have ne: "str_of_int origin \<noteq> str_of_int (origin + 10000)"
    "str_of_int origin \<noteq> str_of_int (origin + 20000)"
    "str_of_int origin \<noteq> str_of_int (origin + 30000)"
    "str_of_int (origin + 10000) \<noteq> str_of_int (origin + 20000)"
    "str_of_int (origin + 10000) \<noteq> str_of_int (origin + 30000)"
    "str_of_int (origin + 20000) \<noteq> str_of_int (origin + 30000)"
    using assms by (simp_all add: str_of_int_differ)
  show ?thesis
    using ne by (simp add: recorded_at_def live_members_recordRequest_minute live_members_empty d)
qed

lemma offset_ranked:
  "ranked [(m3, s + 30), (m2, s + 20), (m1, s + 10), (m0, s)]
   = [(m0, s), (m1, s + 10), (m2, s + 20), (m3, s + (30::int))]"
  by (simp add: ranked_def)

lemma render_25: "str_of_int 25 = ''25''"
  by (simp add: str_eval)

text \<open>
  Claim C6. The times of the scenario are offsets from the clock at the first request.
  For every such clock from 1000 ms on, which is every clock a running server reads:
  four requests of the client 10.0.0.5 recorded into an empty store at the offsets 0,
  10, 20 and 30 seconds, then a check at the offset 35 seconds, which is refused for
  the minute limit with a wait of 25 seconds.
\<close>

theorem scenario_wait_25:
  assumes "1000 \<le> origin"
  shows "fst (checkRateLimit (connected (origin + 35000)) ''10.0.0.5''
           (recorded_at [origin, origin + 10000, origin + 20000, origin + 30000]
              ''10.0.0.5'' Map.empty))
     = \<lparr>allowed = False, reason = Some ''rate_limit'',
        message = Some ''Rate limit exceeded. Please wait 25 seconds before trying again.'',
        waitTime = Some 25, resetTime = None, warning = None\<rparr>"
proof -
  have now: "(origin + 35000) div 1000 = origin div 1000 + 35" by simp
  have pos: "origin div 1000 \<noteq> 0" using assms by simp
  show ?thesis
    using pos
    by (simp add: check_healthy [OF connected_sel(2,3)] connected_sel(1) window_count_def
        window_events_def offset_members [OF assms] offset_ranked now deny_minute_def render_25)
qed

theorem scenario_wait_25_witness:
  "(1000::int) \<le> 1762000000000
   \<and> fst (checkRateLimit (connected 1762000035000) ''10.0.0.5''
           (recorded_at [1762000000000, 1762000010000, 1762000020000, 1762000030000]
              ''10.0.0.5'' Map.empty))
     = \<lparr>allowed = False, reason = Some ''rate_limit'',
        message = Some ''Rate limit exceeded. Please wait 25 seconds before trying again.'',
        waitTime = Some 25, resetTime = None, warning = None\<rparr>"
  using scenario_wait_25 [of 1762000000000] by simp

text \<open>
  At a clock below 1000 ms the score of the first request is the number 0, which
  \<open>oldestRequestTime ? ... : WINDOWS.MINUTE\<close> (line 616) reads as no time, and the
  wait is the whole window.
\<close>

lemma scenario_at_clock_zero:
  "fst (checkRateLimit (connected 35000) ''10.0.0.5''
         (recorded_at [0, 10000, 20000, 30000] ''10.0.0.5'' Map.empty))
   = \<lparr>allowed = False, reason = Some ''rate_limit'',
      message = Some ''Rate limit exceeded. Please wait 60 seconds before trying again.'',
      waitTime = Some 60, resetTime = None, warning = None\<rparr>"
  by (simp add: check_healthy [OF connected_sel(2,3)] connected_sel(1) window_count_def
      window_events_def scenario_members scenario_ranked deny_minute_def str_eval)

text \<open>
  Claim C3. Requests recorded at the seconds 5 and 100, and the oldest request of the
  minute window asked for at second 120 (cutoff 60). The only member of the window has
  score 100, which is what the claim expects; \<open>getOldestRequestTime\<close> returns 5, the
  score of the member of rank 0 of the whole set, which is older than the cutoff.
\<close>

theorem getOldestRequestTime_outside_window:
  "fst (getOldestRequestTime (connected 120000) (minuteKey ''10.0.0.5'') 120 60
          (recorded_at [5000, 100000] ''10.0.0.5'' Map.empty)) = Inr (Some 5)
   \<and> oldestSince_spec (connected 120000) (recorded_at [5000, 100000] ''10.0.0.5'' Map.empty)
         (minuteKey ''10.0.0.5'') 60 = Some 100
   \<and> (5::int) < 120 - 60"
  using oldest_healthy [of "connected 120000" "minuteKey ''10.0.0.5''" 120 60
      "recorded_at [5000, 100000] ''10.0.0.5'' Map.empty"]
  by (simp add: connected_sel pair_members pair_ranked oldestSince_spec_def window_events_def
      ranked_def)

text \<open>
  Claim C2. Requests recorded at the seconds 5, 100, 101, 102 and 103, and a check at
  second 110. Four events are in the minute window and the oldest of them has score
  100, so the claim expects a wait of 100 + 60 - 110 = 50 seconds. The code answers
  with a wait of -45 seconds, computed from the score 5 of an event outside the window.
\<close>

theorem checkRateLimit_wait_from_stale_event:
  "window_count (connected 110000)
       (recorded_at [5000, 100000, 101000, 102000, 103000] ''10.0.0.5'' Map.empty)
       (minuteKey ''10.0.0.5'') 60 = 4
   \<and> oldestSince_spec (connected 110000)
       (recorded_at [5000, 100000, 101000, 102000, 103000] ''10.0.0.5'' Map.empty)
       (minuteKey ''10.0.0.5'') 60 = Some 100
   \<and> fst (checkRateLimit (connected 110000) ''10.0.0.5''
         (recorded_at [5000, 100000, 101000, 102000, 103000] ''10.0.0.5'' Map.empty))
     = \<lparr>allowed = False, reason = Some ''rate_limit'',
        message = Some ''Rate limit exceeded. Please wait -45 seconds before trying again.'',
        waitTime = Some (- 45), resetTime = None, warning = None\<rparr>"
  by (simp add: burst_check connected_sel(1) window_count_def oldestSince_spec_def
      window_events_def burst_members ranked_def deny_minute_def str_eval)

text \<open>
  Claim C1. With the client disconnected, \<open>checkRateLimit\<close> allows the request
  without the warning the claim expects: the adapter answers 0 and no error reaches
  the \<open>catch\<close>. With four requests in the minute window and a client that rejects the
  range query, \<open>checkRateLimit\<close> refuses the request, where the claim expects it to be
  allowed with the warning.
\<close>

theorem checkRateLimit_store_failure:
  "fst (checkRateLimit (disconnected 110000) ''10.0.0.5''
         (recorded_at [100000, 101000, 102000, 103000] ''10.0.0.5'' Map.empty))
   = \<lparr>allowed = True, reason = None, message = None, waitTime = None, resetTime = None,
      warning = None\<rparr>
   \<and> fst (checkRateLimit (ranges_rejected 110000) ''10.0.0.5''
         (recorded_at [100000, 101000, 102000, 103000] ''10.0.0.5'' Map.empty))
   = \<lparr>allowed = False, reason = Some ''rate_limit'',
      message = Some ''Rate limit exceeded. Please wait 60 seconds before trying again.'',
      waitTime = Some 60, resetTime = None, warning = None\<rparr>"
proof -
  let ?db = "recorded_at [100000, 101000, 102000, 103000] ''10.0.0.5'' Map.empty"
  have closed: "fst (checkRateLimit (disconnected 110000) ''10.0.0.5'' ?db) = allow"
    by (rule check_closed) (simp add: disconnected_def)
  have cnt: "countRequestsInWindow (ranges_rejected 110000) (minuteKey ''10.0.0.5'') 110 60 ?db
      = (Inr 4, ?db)"
    using count_healthy [of "ranges_rejected 110000" "minuteKey ''10.0.0.5''" 110 60 ?db]
    by (simp add: ranges_rejected_def quad_members)
  have old: "getOldestRequestTime (ranges_rejected 110000) (minuteKey ''10.0.0.5'') 110 60 ?db
      = (Inr None, ?db)"
    by (simp add: getOldestRequestTime_def kv_zrange_def client_zRangeByScore_def limit_of_def
        ranges_rejected_def)
  have "fst (checkRateLimit (ranges_rejected 110000) ''10.0.0.5'' ?db) = deny_minute 60"
    using cnt old
    by (simp add: checkRateLimit_def checkRateLimit_try_def ranges_rejected_def
        WINDOWS_MINUTE_def LIMITS_PER_MINUTE_def)
  then show ?thesis using closed
    by (simp add: allow_def deny_minute_def str_eval)
qed

text \<open>
  Claim C10. When no event stored under the minute key of the client is later than the
  current second, a refusal for the minute limit carries a wait of at most 60 seconds,
  whatever the client and the store do. There is no lower bound above zero: after
  requests at the seconds 50, 100, 101 and 102 a check at second 110 gives a wait of 0,
  and after requests at the seconds 5, 100, 101, 102 and 103 it gives a wait of -45.
\<close>

theorem waitTime_at_most_window:
  "(list_all (\<lambda>e. snd e \<le> clock ev div 1000) (stored_events db (minuteKey identifier))
      \<and> \<not> allowed (fst (checkRateLimit ev identifier db))
      \<and> reason (fst (checkRateLimit ev identifier db)) = Some ''rate_limit''
    \<longrightarrow> (\<exists>w. waitTime (fst (checkRateLimit ev identifier db)) = Some w \<and> w \<le> 60))
   \<and> list_all (\<lambda>e. snd e \<le> 110)
        (stored_events (recorded_at [50000, 100000, 101000, 102000] ''10.0.0.5'' Map.empty)
           (minuteKey ''10.0.0.5''))
   \<and> waitTime (fst (checkRateLimit (connected 110000) ''10.0.0.5''
        (recorded_at [50000, 100000, 101000, 102000] ''10.0.0.5'' Map.empty))) = Some 0
   \<and> list_all (\<lambda>e. snd e \<le> 110)
        (stored_events (recorded_at [5000, 100000, 101000, 102000, 103000] ''10.0.0.5'' Map.empty)
           (minuteKey ''10.0.0.5''))
   \<and> waitTime (fst (checkRateLimit (connected 110000) ''10.0.0.5''
        (recorded_at [5000, 100000, 101000, 102000, 103000] ''10.0.0.5'' Map.empty)))
       = Some (- 45)"
proof -
  have bound: "\<exists>w. waitTime (fst (checkRateLimit ev identifier db)) = Some w \<and> w \<le> 60"
    if le: "list_all (\<lambda>e. snd e \<le> clock ev div 1000) (stored_events db (minuteKey identifier))"
      and deny: "\<not> allowed (fst (checkRateLimit ev identifier db))"
      and why: "reason (fst (checkRateLimit ev identifier db)) = Some ''rate_limit''"
  proof -
    have old: "t \<le> clock ev div 1000"
      if "(m, t) \<in> set (live_members (clock ev) db (minuteKey identifier))" for m t
    proof -
      have "(m, t) \<in> set (stored_events db (minuteKey identifier))"
        using that live_members_stored by blast
      then show ?thesis using le by (auto simp: list_all_iff)
    qed
    from check_shape [of ev "identifier" db] show ?thesis
    proof (elim disjE exE conjE)
      assume "fst (checkRateLimit ev identifier db) = allow"
      then show ?thesis using deny by (simp add: allow_def)
    next
      assume "fst (checkRateLimit ev identifier db) = deny_day"
      then show ?thesis using why by (simp add: deny_day_def)
    next
      assume "fst (checkRateLimit ev identifier db) = deny_minute 60"
      then show ?thesis by (simp add: deny_minute_def)
    next
      fix m t
      assume mem: "(m, t) \<in> set (live_members (clock ev) db (minuteKey identifier))"
        and eq: "fst (checkRateLimit ev identifier db) = deny_minute (t + 60 - clock ev div 1000)"
      have "t + 60 - clock ev div 1000 \<le> 60" using old [OF mem] by simp
      then show ?thesis using eq by (simp add: deny_minute_def)
    qed
  qed
  have zero: "waitTime (fst (checkRateLimit (connected 110000) ''10.0.0.5''
        (recorded_at [50000, 100000, 101000, 102000] ''10.0.0.5'' Map.empty))) = Some 0"
    by (simp add: edge_check deny_minute_def)
  have neg: "waitTime (fst (checkRateLimit (connected 110000) ''10.0.0.5''
        (recorded_at [5000, 100000, 101000, 102000, 103000] ''10.0.0.5'' Map.empty))) = Some (- 45)"
    by (simp add: burst_check deny_minute_def)
  show ?thesis
    using bound zero neg by (simp add: edge_stored burst_stored)
qed

theorem waitTime_at_most_window_witness:
  "list_all (\<lambda>e. snd e \<le> 110)
     (stored_events (recorded_at [5000, 100000, 101000, 102000, 103000] ''10.0.0.5'' Map.empty)
        (minuteKey ''10.0.0.5''))
   \<and> \<not> allowed (fst (checkRateLimit (connected 110000) ''10.0.0.5''
        (recorded_at [5000, 100000, 101000, 102000, 103000] ''10.0.0.5'' Map.empty)))
   \<and> (\<exists>w. waitTime (fst (checkRateLimit (connected 110000) ''10.0.0.5''
        (recorded_at [5000, 100000, 101000, 102000, 103000] ''10.0.0.5'' Map.empty))) = Some w
        \<and> w \<le> 60)"
  using waitTime_at_most_window [of "connected 110000"
      "recorded_at [5000, 100000, 101000, 102000, 103000] ''10.0.0.5'' Map.empty" "''10.0.0.5''"]
  by (simp add: connected_sel(1) burst_stored burst_check deny_minute_def)

subsection \<open>The daily limit\<close>

lemma full_day_minute: "live_members t full_day (minuteKey ''10.0.0.5'') = []"
  using keys_differ [of "''10.0.0.5''" "''10.0.0.5''"]
  by (simp add: live_members_def live_def full_day_def)

lemma full_day_day:
  "live_members 1000000 full_day (dayKey ''10.0.0.5'')
   = map (\<lambda>n. (str_of_int (int n * 1000), int n)) [0..<500]"
  by (simp add: live_members_def live_def full_day_def)

lemma full_day_counts:
  "window_count (connected 1000000) full_day (minuteKey ''10.0.0.5'') 60 = 0"
  "window_count (connected 1000000) full_day (dayKey ''10.0.0.5'') 86400 = 500"
proof -
  show "window_count (connected 1000000) full_day (minuteKey ''10.0.0.5'') 60 = 0"
    by (simp add: window_count_def window_events_def connected_sel(1) full_day_minute)
  have "filter (\<lambda>e. 1000 - 86400 \<le> snd e) (map (\<lambda>n. (str_of_int (int n * 1000), int n)) [0..<500])
      = map (\<lambda>n. (str_of_int (int n * 1000), int n)) [0..<500]"
    by (rule filter_True) auto
  then show "window_count (connected 1000000) full_day (dayKey ''10.0.0.5'') 86400 = 500"
    by (simp add: window_count_def window_events_def connected_sel(1) full_day_day)
qed

lemma count_rejected:
  assumes "isOpen ev" "rejects ev (ZCOUNT k (ns - w) PlusInf)"
  shows "countRequestsInWindow ev k ns w db = (Inr 0, db)"
  using assms
  by (simp add: countRequestsInWindow_def kv_zcount_def client_zCount_def Let_def)

lemma full_day_counts_any:
  assumes "clock ev = 1000000"
  shows "window_count ev full_day (minuteKey ''10.0.0.5'') 60 = 0"
    and "window_count ev full_day (dayKey ''10.0.0.5'') 86400 = 500"
proof -
  show "window_count ev full_day (minuteKey ''10.0.0.5'') 60 = 0"
    by (simp add: window_count_def window_events_def full_day_minute)
  have "filter (\<lambda>e. 1000 - 86400 \<le> snd e) (map (\<lambda>n. (str_of_int (int n * 1000), int n)) [0..<500])
      = map (\<lambda>n. (str_of_int (int n * 1000), int n)) [0..<500]"
    by (rule filter_True) auto
  then show "window_count ev full_day (dayKey ''10.0.0.5'') 86400 = 500"
    by (simp add: window_count_def window_events_def assms full_day_day)
qed

text \<open>
  Claim C5, as stated, fails: with no event in the minute window and 500 events in the
  day window, a disconnected client allows the request, and so does a connected client
  whose counts the store rejects. The adapter answers 0 for a closed client and
  \<open>countRequestsInWindow\<close> answers 0 for a rejected count.
\<close>

theorem daily_limit_unseen_when_store_down:
  "window_count (disconnected 1000000) full_day (minuteKey ''10.0.0.5'') 60 < 4
   \<and> 500 \<le> window_count (disconnected 1000000) full_day (dayKey ''10.0.0.5'') 86400
   \<and> fst (checkRateLimit (disconnected 1000000) ''10.0.0.5'' full_day)
     = \<lparr>allowed = True, reason = None, message = None, waitTime = None, resetTime = None,
        warning = None\<rparr>
   \<and> window_count (counts_rejected 1000000) full_day (minuteKey ''10.0.0.5'') 60 < 4
   \<and> 500 \<le> window_count (counts_rejected 1000000) full_day (dayKey ''10.0.0.5'') 86400
   \<and> fst (checkRateLimit (counts_rejected 1000000) ''10.0.0.5'' full_day)
     = \<lparr>allowed = True, reason = None, message = None, waitTime = None, resetTime = None,
        warning = None\<rparr>"
proof -
  have c1: "clock (disconnected 1000000) = 1000000" by (simp add: disconnected_def)
  have c2: "clock (counts_rejected 1000000) = 1000000" by (simp add: counts_rejected_def)
  have a: "fst (checkRateLimit (disconnected 1000000) ''10.0.0.5'' full_day) = allow"
    by (rule check_closed) (simp add: disconnected_def)
  have o: "isOpen (counts_rejected 1000000)" by (simp add: counts_rejected_def)
  have r: "rejects (counts_rejected 1000000) (ZCOUNT k (ns - w) PlusInf)" for k ns w
    by (simp add: counts_rejected_def)
  have b: "fst (checkRateLimit (counts_rejected 1000000) ''10.0.0.5'' full_day) = allow"
    by (simp add: checkRateLimit_def checkRateLimit_try_def Let_def count_rejected [OF o r]
        LIMITS_PER_MINUTE_def LIMITS_PER_DAY_def)
  show ?thesis
    using a b by (simp add: full_day_counts_any [OF c1] full_day_counts_any [OF c2] allow_def)
qed

text \<open>
  Claim C5, amended. When the client is connected and the store answers the count of
  the day window, fewer than 4 events are in the minute window and at least 500 in the
  day window, \<open>checkRateLimit\<close> refuses the request for the daily limit, with the fixed
  message and no waiting time.
\<close>

theorem checkRateLimit_daily_limit:
  assumes "isOpen ev"
    and "\<not> rejects ev (ZCOUNT (dayKey identifier) (clock ev div 1000 - 86400) PlusInf)"
    and "window_count ev db (minuteKey identifier) 60 < 4"
    and "500 \<le> window_count ev db (dayKey identifier) 86400"
  shows "fst (checkRateLimit ev identifier db)
     = \<lparr>allowed = False, reason = Some ''daily_limit'',
        message = Some ''Daily limit of 500 requests reached. Please try again tomorrow.'',
        waitTime = None, resetTime = Some ''tomorrow'', warning = None\<rparr>"
proof -
  let ?ns = "clock ev div 1000"
  have "\<exists>c. countRequestsInWindow ev (minuteKey identifier) ?ns 60 db = (Inr c, db) \<and> c < 4"
  proof (cases "rejects ev (ZCOUNT (minuteKey identifier) (?ns - 60) PlusInf)")
    case True
    then show ?thesis using count_rejected [OF assms(1) True] by simp
  next
    case False
    then show ?thesis
      using count_healthy [OF assms(1) False] assms(3)
      by (simp add: window_count_def window_events_def)
  qed
  then obtain c where m: "countRequestsInWindow ev (minuteKey identifier) ?ns 60 db = (Inr c, db)"
    and c: "c < 4" by blast
  have d: "countRequestsInWindow ev (dayKey identifier) ?ns 86400 db
      = (Inr (window_count ev db (dayKey identifier) 86400), db)"
    using count_healthy [OF assms(1,2)] by (simp add: window_count_def window_events_def)
  show ?thesis
    using m c d assms(4)
    by (simp add: checkRateLimit_def checkRateLimit_try_def Let_def deny_day_def
        WINDOWS_MINUTE_def WINDOWS_DAY_def LIMITS_PER_MINUTE_def LIMITS_PER_DAY_def)
qed

theorem checkRateLimit_daily_limit_witness:
  "isOpen (connected 1000000)
   \<and> window_count (connected 1000000) full_day (minuteKey ''10.0.0.5'') 60 < 4
   \<and> 500 \<le> window_count (connected 1000000) full_day (dayKey ''10.0.0.5'') 86400
   \<and> fst (checkRateLimit (connected 1000000) ''10.0.0.5'' full_day)
     = \<lparr>allowed = False, reason = Some ''daily_limit'',
        message = Some ''Daily limit of 500 requests reached. Please try again tomorrow.'',
        waitTime = None, resetTime = Some ''tomorrow'', warning = None\<rparr>"
  using checkRateLimit_daily_limit [of "connected 1000000" "''10.0.0.5''" full_day]
  by (simp add: connected_sel full_day_counts)

subsection \<open>Expiry\<close>

lemma expire_purges:
  assumes "isOpen ev" "\<not> rejects ev (EXPIRE k secs)" "0 < secs" "clock ev + secs * 1000 \<le> t"
  shows "live_members t (snd (kv_expire ev k secs db)) k = []"
proof (cases "live (clock ev) db k")
  case None
  then have "snd (kv_expire ev k secs db) = db"
    using assms(1,2) by (simp add: kv_expire_def client_expire_def redis_expire_def)
  moreover have "live t db k = None"
    using None assms(3,4) by (auto simp: live_def split: option.splits if_splits)
  ultimately show ?thesis by (simp add: live_members_def)
next
  case (Some e)
  then have "snd (kv_expire ev k secs db) k = Some (e\<lparr>expireAt := Some (clock ev + secs * 1000)\<rparr>)"
    using assms(1,2,3) by (simp add: kv_expire_def client_expire_def redis_expire_def)
  then show ?thesis using assms(4) by (simp add: live_members_def live_def)
qed

lemma trio_members:
  "live_members 300000 (recorded_at [0, 100000, 200000] ''10.0.0.5'' Map.empty)
     (minuteKey ''10.0.0.5'')
   = [(''200000'', 200), (''100000'', 100), (''0'', 0)]"
  by (simp add: recorded_at_def live_members_recordRequest_minute live_members_empty str_eval)

text \<open>
  Claim C7, as stated, fails: requests recorded at the seconds 0, 100 and 200, and at
  second 300, which is 300 seconds after its insertion, the event of second 0 is still
  in the minute set. Each recording renews the expiry of the whole key.
\<close>

theorem event_outlives_two_windows:
  "(''0'', 0) \<in> set (live_members 300000
        (recorded_at [0, 100000, 200000] ''10.0.0.5'' Map.empty) (minuteKey ''10.0.0.5''))
   \<and> (0::int) + 2 * 60 * 1000 < 300000"
  by (simp add: trio_members)

text \<open>
  Claim C7, amended. After a call of \<open>recordRequest\<close> whose \<open>expire\<close> commands the
  store accepts, every event under the minute key of the client is gone 120 seconds
  after that call, and every event under its day key 172800 seconds after it: the
  period runs from the latest recording, not from the insertion of each event.
\<close>

theorem recordRequest_expiry:
  assumes "isOpen ev"
    and "\<not> rejects ev (EXPIRE (minuteKey identifier) 120)"
    and "\<not> rejects ev (EXPIRE (dayKey identifier) 172800)"
  shows "(clock ev + 120000 \<le> t
            \<longrightarrow> live_members t (recordRequest ev identifier db) (minuteKey identifier) = [])
       \<and> (clock ev + 172800000 \<le> t
            \<longrightarrow> live_members t (recordRequest ev identifier db) (dayKey identifier) = [])"
proof -
  define db1 where "db1 = snd (kv_zadd ev (minuteKey identifier) (clock ev div 1000) (str_of_int (clock ev)) db)"
  define db2 where "db2 = snd (kv_zadd ev (dayKey identifier) (clock ev div 1000) (str_of_int (clock ev)) db1)"
  define db3 where "db3 = snd (kv_expire ev (minuteKey identifier) 120 db2)"
  define db4 where "db4 = snd (kv_expire ev (dayKey identifier) 172800 db3)"
  have r: "recordRequest ev identifier db = db4"
    by (simp add: recordRequest_def Let_def db1_def db2_def db3_def db4_def
        WINDOWS_MINUTE_def WINDOWS_DAY_def)
  have k: "dayKey identifier \<noteq> minuteKey identifier"
    using keys_differ [of "identifier" "identifier"] by simp
  have m: "live_members t db4 (minuteKey identifier) = []" if "clock ev + 120000 \<le> t"
  proof -
    have "live_members t db3 (minuteKey identifier) = []"
      unfolding db3_def using that by (intro expire_purges assms) simp_all
    moreover have "db4 (minuteKey identifier) = db3 (minuteKey identifier)"
      unfolding db4_def by (rule kv_expire_other [OF k])
    ultimately show ?thesis using live_members_eq by metis
  qed
  have d: "live_members t db4 (dayKey identifier) = []" if "clock ev + 172800000 \<le> t"
    unfolding db4_def using that by (intro expire_purges assms) simp_all
  show ?thesis using r m d by simp
qed

theorem recordRequest_expiry_witness:
  "isOpen (connected 0)
   \<and> live_members 120000 (recordRequest (connected 0) ''10.0.0.5'' Map.empty)
        (minuteKey ''10.0.0.5'') = []
   \<and> live_members 172800000 (recordRequest (connected 0) ''10.0.0.5'' Map.empty)
        (dayKey ''10.0.0.5'') = []
   \<and> live_members 119999 (recordRequest (connected 0) ''10.0.0.5'' Map.empty)
        (minuteKey ''10.0.0.5'') = [(''0'', 0)]"
proof -
  have a: "live_members 120000 (recordRequest (connected 0) ''10.0.0.5'' Map.empty)
        (minuteKey ''10.0.0.5'') = []"
    using recordRequest_expiry [of "connected 0" "''10.0.0.5''" 120000 Map.empty]
    by (simp add: connected_sel)
  have b: "live_members 172800000 (recordRequest (connected 0) ''10.0.0.5'' Map.empty)
        (dayKey ''10.0.0.5'') = []"
    using recordRequest_expiry [of "connected 0" "''10.0.0.5''" 172800000 Map.empty]
    by (simp add: connected_sel)
  have c: "live_members 119999 (recordRequest (connected 0) ''10.0.0.5'' Map.empty)
        (minuteKey ''10.0.0.5'') = [(''0'', 0)]"
    by (simp add: live_members_recordRequest_minute live_members_empty str_eval)
  show ?thesis using a b c by (simp add: connected_sel)
qed

subsection \<open>The adapter and a store that is down\<close>

lemma kv_zcount_connected:
  "kv_zcount (connected t) k lo PlusInf db
   = (Inr (int (length (filter (\<lambda>e. lo \<le> snd e) (live_members t db k)))), db)"
  by (simp add: kv_zcount_def client_zCount_def redis_zCount_def in_score_range_PlusInf
      connected_def)

text \<open>
  Claim C4, as stated, fails: with four events of the last minute in the store, the
  count of a disconnected client is the successful answer 0, the answer an empty store
  gives, where a connected client counts 4; \<open>zadd\<close>, \<open>zrange\<close> and \<open>expire\<close> succeed
  as well, with \<open>null\<close>, the empty array and \<open>null\<close>.
\<close>

theorem kv_masks_disconnection:
  "fst (kv_zcount (disconnected 110000) (minuteKey ''10.0.0.5'') 50 PlusInf
          (recorded_at [100000, 101000, 102000, 103000] ''10.0.0.5'' Map.empty)) = Inr 0
   \<and> fst (kv_zcount (connected 110000) (minuteKey ''10.0.0.5'') 50 PlusInf Map.empty) = Inr 0
   \<and> fst (kv_zcount (connected 110000) (minuteKey ''10.0.0.5'') 50 PlusInf
          (recorded_at [100000, 101000, 102000, 103000] ''10.0.0.5'' Map.empty)) = Inr 4
   \<and> fst (kv_zadd (disconnected 110000) (minuteKey ''10.0.0.5'') 110 ''110000'' Map.empty)
       = Inr None
   \<and> fst (kv_zrange (disconnected 110000) (minuteKey ''10.0.0.5'') 50 PlusInf
          \<lparr>byScore = True, withScores = False, count = 1\<rparr>
          (recorded_at [100000, 101000, 102000, 103000] ''10.0.0.5'' Map.empty))
       = Inr (Members [])
   \<and> fst (kv_expire (disconnected 110000) (minuteKey ''10.0.0.5'') 120 Map.empty) = Inr None"
  by (simp add: kv_zcount_connected quad_members live_members_empty)
     (simp add: kv_zcount_def kv_zadd_def kv_zrange_def kv_expire_def disconnected_def)

text \<open>
  Claim C4, amended. When the client is not open, each of the four operations succeeds
  with a fixed value and leaves the store alone: \<open>null\<close> for \<open>zadd\<close> and \<open>expire\<close>, 0
  for \<open>zcount\<close>, the empty array for \<open>zrange\<close>. When the client is open, an operation
  fails, handing the failure to its caller, exactly when a command it issues is
  rejected: ZADD for \<open>zadd\<close>, ZCOUNT for \<open>zcount\<close>, EXPIRE for \<open>expire\<close>; for
  \<open>zrange\<close> the range by score and, with \<open>withScores\<close>, the second range by score, or
  else the range by rank, which the server also refuses when the stop is not a number.
\<close>

theorem kv_unavailable_store:
  "(\<not> isOpen ev \<longrightarrow>
      kv_zadd ev k sc m db = (Inr None, db)
      \<and> kv_zcount ev k lo hi db = (Inr 0, db)
      \<and> kv_zrange ev k lo hi opts db = (Inr (Members []), db)
      \<and> kv_expire ev k secs db = (Inr None, db))
   \<and> (isOpen ev \<longrightarrow>
      (if rejects ev (ZADD k sc m) then kv_zadd ev k sc m db = (Inl RedisError, db)
       else \<not> isl (fst (kv_zadd ev k sc m db)))
      \<and> (if rejects ev (ZCOUNT k lo hi) then kv_zcount ev k lo hi db = (Inl RedisError, db)
         else \<not> isl (fst (kv_zcount ev k lo hi db)))
      \<and> (if rejects ev (EXPIRE k secs) then kv_expire ev k secs db = (Inl RedisError, db)
         else \<not> isl (fst (kv_expire ev k secs db)))
      \<and> (if (if byScore opts then
                rejects ev (ZRANGEBYSCORE k lo hi (limit_of opts))
                \<or> (withScores opts \<and> rejects ev (ZRANGEBYSCORE_WITHSCORES k lo hi (limit_of opts)))
              else if withScores opts then rejects ev (ZRANGE_WITHSCORES k lo hi) \<or> hi = PlusInf
              else rejects ev (ZRANGE k lo hi) \<or> hi = PlusInf)
         then kv_zrange ev k lo hi opts db = (Inl RedisError, db)
         else \<not> isl (fst (kv_zrange ev k lo hi opts db))))"
proof -
  have closed: "kv_zadd ev k sc m db = (Inr None, db)
      \<and> kv_zcount ev k lo hi db = (Inr 0, db)
      \<and> kv_zrange ev k lo hi opts db = (Inr (Members []), db)
      \<and> kv_expire ev k secs db = (Inr None, db)" if "\<not> isOpen ev"
    using that by (simp add: kv_zadd_def kv_zcount_def kv_zrange_def kv_expire_def)
  have zadd: "if rejects ev (ZADD k sc m) then kv_zadd ev k sc m db = (Inl RedisError, db)
       else \<not> isl (fst (kv_zadd ev k sc m db))" if "isOpen ev"
    using that by (simp add: kv_zadd_def client_zAdd_def split: prod.splits)
  have zcount: "if rejects ev (ZCOUNT k lo hi) then kv_zcount ev k lo hi db = (Inl RedisError, db)
         else \<not> isl (fst (kv_zcount ev k lo hi db))" if "isOpen ev"
    using that by (simp add: kv_zcount_def client_zCount_def)
  have expire: "if rejects ev (EXPIRE k secs) then kv_expire ev k secs db = (Inl RedisError, db)
         else \<not> isl (fst (kv_expire ev k secs db))" if "isOpen ev"
    using that by (simp add: kv_expire_def client_expire_def split: prod.splits)
  have zrange: "if (if byScore opts then
                rejects ev (ZRANGEBYSCORE k lo hi (limit_of opts))
                \<or> (withScores opts \<and> rejects ev (ZRANGEBYSCORE_WITHSCORES k lo hi (limit_of opts)))
              else if withScores opts then rejects ev (ZRANGE_WITHSCORES k lo hi) \<or> hi = PlusInf
              else rejects ev (ZRANGE k lo hi) \<or> hi = PlusInf)
         then kv_zrange ev k lo hi opts db = (Inl RedisError, db)
         else \<not> isl (fst (kv_zrange ev k lo hi opts db))" if "isOpen ev"
    using that
    by (cases hi)
      (simp_all add: kv_zrange_def client_zRangeByScore_def client_zRangeByScoreWithScores_def
        client_zRangeWithScores_def client_zRange_def)
  show ?thesis using closed zadd zcount expire zrange by blast
qed

theorem kv_unavailable_store_witness:
  "\<not> isOpen (disconnected 110000)
   \<and> kv_zcount (disconnected 110000) (minuteKey ''10.0.0.5'') 50 PlusInf
        (recorded_at [100000, 101000, 102000, 103000] ''10.0.0.5'' Map.empty)
      = (Inr 0, recorded_at [100000, 101000, 102000, 103000] ''10.0.0.5'' Map.empty)
   \<and> isOpen (ranges_rejected 110000)
   \<and> rejects (ranges_rejected 110000) (ZRANGEBYSCORE (minuteKey ''10.0.0.5'') 50 PlusInf (Some 1))
   \<and> kv_zrange (ranges_rejected 110000) (minuteKey ''10.0.0.5'') 50 PlusInf
        \<lparr>byScore = True, withScores = False, count = 1\<rparr> Map.empty
      = (Inl RedisError, Map.empty)
   \<and> \<not> rejects (ranges_rejected 110000) (ZCOUNT (minuteKey ''10.0.0.5'') 50 PlusInf)
   \<and> \<not> isl (fst (kv_zcount (ranges_rejected 110000) (minuteKey ''10.0.0.5'') 50 PlusInf
        Map.empty))"
proof -
  have a: "\<not> isOpen (disconnected 110000)" by (simp add: disconnected_def)
  have b: "isOpen (ranges_rejected 110000)
     \<and> rejects (ranges_rejected 110000) (ZRANGEBYSCORE (minuteKey ''10.0.0.5'') 50 PlusInf (Some 1))
     \<and> \<not> rejects (ranges_rejected 110000) (ZCOUNT (minuteKey ''10.0.0.5'') 50 PlusInf)"
    by (simp add: ranges_rejected_def)
  have l: "limit_of \<lparr>byScore = True, withScores = False, count = 1\<rparr> = Some 1"
    by (simp add: limit_of_def)
  show ?thesis
    using a b l
      kv_unavailable_store [of "disconnected 110000" "minuteKey ''10.0.0.5''" 0 "''x''"
        "recorded_at [100000, 101000, 102000, 103000] ''10.0.0.5'' Map.empty" 50 PlusInf
        "\<lparr>byScore = True, withScores = False, count = 1\<rparr>" 120]
      kv_unavailable_store [of "ranges_rejected 110000" "minuteKey ''10.0.0.5''" 0 "''x''"
        Map.empty 50 PlusInf "\<lparr>byScore = True, withScores = False, count = 1\<rparr>" 120]
    by simp
qed

lemma split_sep_not_Nil: "split_sep sep s \<noteq> []"
  by (induction s) (auto split: list.splits)

lemma split_sep_first: "split_sep sep s ! 0 = takeWhile (\<lambda>c. c \<noteq> sep) s"
  by (induction s) (auto split: list.splits simp: split_sep_not_Nil)

lemma or_else_present: "or_else v rest = (case present v of None \<Rightarrow> rest | Some s \<Rightarrow> s)"
  by (simp add: or_else_def present_def split: option.splits)

text \<open>
  Claim C9. \<open>getClientIdentifier\<close> resolves the identity in the order of the
  specification: the trimmed first comma-separated token of a non-empty
  \<open>x-forwarded-for\<close>, else a non-empty \<open>x-real-ip\<close>, else the peer address (\<open>req.ip\<close>,
  then the address of the connection), else \<open>unknown\<close>. The index 0 it reads from the
  split header always exists, so it returns an identity for every request.
\<close>

theorem getClientIdentifier_resolution:
  "getClientIdentifier req = identify_spec req \<and> 0 < length (split_sep CHR '','' f)"
  by (simp add: getClientIdentifier_def identify_spec_def Let_def or_else_present
      split_sep_first first_token_def present_def split_sep_not_Nil split: option.splits)

subsection \<open>Examples, and the oldest request when nothing stale is stored\<close>

lemma getClientIdentifier_examples:
  "getClientIdentifier \<lparr>headers = [''x-forwarded-for'' \<mapsto> '' 203.0.113.7 , 10.0.0.1'',
       ''x-real-ip'' \<mapsto> ''10.0.0.2''], ip = Some ''10.0.0.3'', remoteAddress = Some ''10.0.0.3''\<rparr>
     = ''203.0.113.7''"
  "getClientIdentifier \<lparr>headers = [''x-real-ip'' \<mapsto> ''10.0.0.2''], ip = Some ''10.0.0.3'',
       remoteAddress = Some ''10.0.0.3''\<rparr> = ''10.0.0.2''"
  "getClientIdentifier \<lparr>headers = Map.empty, ip = None, remoteAddress = Some ''10.0.0.3''\<rparr>
     = ''10.0.0.3''"
  "getClientIdentifier \<lparr>headers = Map.empty, ip = None, remoteAddress = None\<rparr> = ''unknown''"
  by (simp_all add: getClientIdentifier_def or_else_def trim_def is_space_def)

lemma oldest_agrees_without_stale_events:
  assumes "isOpen ev" "rejects ev = (\<lambda>c. False)"
    and "list_all (\<lambda>e. clock ev div 1000 - w \<le> snd e) (live_members (clock ev) db k)"
  shows "fst (getOldestRequestTime ev k (clock ev div 1000) w db) = Inr (oldestSince_spec ev db k w)"
proof -
  have r: "\<And>c. \<not> rejects ev c" using assms(2) by simp
  have all: "filter (\<lambda>e. clock ev div 1000 - w \<le> snd e) (live_members (clock ev) db k)
      = live_members (clock ev) db k"
    using assms(3) by (simp add: list_all_iff)
  show ?thesis
  proof (cases "ranked (live_members (clock ev) db k)")
    case Nil
    then have "live_members (clock ev) db k = []" by (simp add: ranked_Nil_iff)
    then show ?thesis
      by (simp add: oldest_healthy [OF assms(1) r r] oldestSince_spec_def window_events_def
          ranked_def)
  next
    case (Cons e rest)
    then have "ranked (live_members (clock ev) db k) \<noteq> []" by simp
    then have ne: "live_members (clock ev) db k \<noteq> []" by (simp add: ranked_Nil_iff)
    have "getOldestRequestTime ev k (clock ev div 1000) w db
        = (Inr (Some (snd (hd (ranked (live_members (clock ev) db k))))), db)"
      using ne by (simp add: oldest_healthy [OF assms(1) r r] all)
    moreover have "oldestSince_spec ev db k w = Some (snd e)"
      by (simp add: oldestSince_spec_def window_events_def all Cons)
    ultimately show ?thesis by (simp add: Cons)
  qed
qed

end
